theory Spec2Isabelle
  imports Main "HOL-Library.Word"
begin

unbundle bit_operations_syntax

section \<open>The memory pool allocator of \<open>memory_pool.c\<close>\<close>

text \<open>
  The allocator keeps its bookkeeping in two places: the \<open>MemoryPool\<close> object owned
  by the caller, and the \<open>BlockHeader\<close> structures that it writes into the region
  obtained from \<open>mmap\<close>. Both \<open>size_t\<close> and pointers are 64 bit wide (LP64), so
  they are \<open>64 word\<close> here and all arithmetic wraps as in C; \<open>NULL\<close> is the
  address \<open>0\<close>.
\<close>

type_synonym size_t = "64 word"
type_synonym addr = "64 word"

definition DEFAULT_ALIGNMENT :: size_t where
  "DEFAULT_ALIGNMENT = 8"

definition MIN_BLOCK_SIZE :: size_t where
  "MIN_BLOCK_SIZE = 16"

definition POOL_SIGNATURE :: "32 word" where
  "POOL_SIGNATURE = 0xDEADBEEF"

definition BLOCK_SIGNATURE :: "32 word" where
  "BLOCK_SIGNATURE = 0xCAFEBABE"

definition MAX_FREE_LISTS :: nat where
  "MAX_FREE_LISTS = 32"

text \<open>
  \<open>sizeof(BlockHeader)\<close> on LP64: a 4 byte signature padded to 8, an 8 byte size,
  a 1 byte flag padded to 8, two 8 byte pointers and a 4 byte magic padded to 8.
  The fields \<open>size\<close>, \<open>next\<close> and \<open>prev\<close> of a header are \<open>size_b\<close>, \<open>next_b\<close> and
  \<open>prev_b\<close> here, and the \<open>signature\<close> of the pool is \<open>pool_signature\<close>.
\<close>

definition sizeof_BlockHeader :: size_t where
  "sizeof_BlockHeader = 48"

record BlockHeader =
  signature :: "32 word"
  size_b :: size_t
  is_free :: bool
  next_b :: addr
  prev_b :: addr
  magic :: "32 word"

record FreeList =
  block_size :: size_t
  head :: addr
  count :: size_t

record MemoryPool =
  pool_signature :: "32 word"
  memory :: addr
  total_size :: size_t
  used_size :: size_t
  peak_usage :: size_t
  alignment :: size_t
  num_allocations :: size_t
  num_deallocations :: size_t
  num_blocks :: size_t
  fragmentation_count :: size_t
  free_lists :: "FreeList list"
  first_block :: addr
  enable_debugging :: bool
  name :: string

subsection \<open>Memory\<close>

text \<open>
  The region is raw memory, and the code reads and writes it through
  \<open>BlockHeader\<close> pointers that it computes from sizes, so two headers may lie less
  than \<open>sizeof(BlockHeader)\<close> apart and share bytes. Memory is therefore a finite
  table of cells of 8 bytes, little-endian, with the address of a cell (as an
  integer) for its key. A freshly mapped anonymous region is filled with zero
  bytes, hence a cell without an entry reads as \<open>0\<close>.

  A header at the address \<open>b\<close> occupies six cells: \<open>signature\<close> is the low 4 bytes
  of the cell at \<open>b\<close>, \<open>size\<close> the cell at \<open>b + 8\<close>, \<open>is_free\<close> the lowest byte of
  the cell at \<open>b + 16\<close>, \<open>next\<close> the cell at \<open>b + 24\<close>, \<open>prev\<close> the cell at \<open>b + 32\<close>
  and \<open>magic\<close> the low 4 bytes of the cell at \<open>b + 40\<close>. The other bytes of the
  first, third and sixth cell are padding: an assignment to a field leaves them
  as they are. A \<open>bool\<close> reads as true when its byte is not zero.

  The model is exact for header addresses that are multiples of 8, which is
  the alignment that C requires of a \<open>BlockHeader\<close>; the addresses that the
  allocator computes are multiples of 8 whenever the region starts at one (as
  a mapping does) and the alignment of the pool is a multiple of 8. Memory
  outside the region is not modelled: where the program would fault, the model
  reads zero cells. Writes by clients into their payloads are not part of the
  operations.
\<close>

type_synonym heap = "(int \<times> 64 word) list"

record machine =
  pool :: MemoryPool
  mem :: heap

definition zero_heap :: heap where
  "zero_heap = []"

definition cell :: "heap \<Rightarrow> addr \<Rightarrow> 64 word" where
  "cell h a = (case map_of h (uint a) of Some w \<Rightarrow> w | None \<Rightarrow> 0)"

fun put_at :: "heap \<Rightarrow> int \<Rightarrow> 64 word \<Rightarrow> heap" where
  "put_at [] k w = [(k, w)]"
| "put_at ((k', w') # h) k w = (if k' = k then (k, w) # h else (k', w') # put_at h k w)"

definition put :: "heap \<Rightarrow> addr \<Rightarrow> 64 word \<Rightarrow> heap" where
  "put h a w = put_at h (uint a) w"

text \<open>\<open>load h b\<close> is the value of \<open>*b\<close> for a \<open>BlockHeader\<close> pointer \<open>b\<close>.\<close>

definition load :: "heap \<Rightarrow> addr \<Rightarrow> BlockHeader" where
  "load h b =
     \<lparr>signature = ucast (cell h b), size_b = cell h (b + 8),
      is_free = ((ucast (cell h (b + 16)) :: 8 word) \<noteq> 0),
      next_b = cell h (b + 24), prev_b = cell h (b + 32),
      magic = ucast (cell h (b + 40))\<rparr>"

subsection \<open>Field updates through a pointer\<close>

definition set_signature :: "heap \<Rightarrow> addr \<Rightarrow> 32 word \<Rightarrow> heap" where
  "set_signature h b v = put h b ((cell h b AND NOT (mask 32)) OR ucast v)"

definition set_size :: "heap \<Rightarrow> addr \<Rightarrow> size_t \<Rightarrow> heap" where
  "set_size h b v = put h (b + 8) v"

definition set_free :: "heap \<Rightarrow> addr \<Rightarrow> bool \<Rightarrow> heap" where
  "set_free h b v =
     put h (b + 16) ((cell h (b + 16) AND NOT (mask 8)) OR (if v then 1 else 0))"

definition set_next :: "heap \<Rightarrow> addr \<Rightarrow> addr \<Rightarrow> heap" where
  "set_next h b v = put h (b + 24) v"

definition set_prev :: "heap \<Rightarrow> addr \<Rightarrow> addr \<Rightarrow> heap" where
  "set_prev h b v = put h (b + 32) v"

definition set_magic :: "heap \<Rightarrow> addr \<Rightarrow> 32 word \<Rightarrow> heap" where
  "set_magic h b v = put h (b + 40) ((cell h (b + 40) AND NOT (mask 32)) OR ucast v)"

text \<open>
  \<open>store h b v\<close> is the sequence of six assignments with which the code fills in
  a new header, in the order of the source: \<open>signature\<close>, \<open>size\<close>, \<open>is_free\<close>,
  \<open>next\<close>, \<open>prev\<close>, \<open>magic\<close>.
\<close>

definition store :: "heap \<Rightarrow> addr \<Rightarrow> BlockHeader \<Rightarrow> heap" where
  "store h b v =
     (let h1 = set_signature h b (signature v);
          h2 = set_size h1 b (size_b v);
          h3 = set_free h2 b (is_free v);
          h4 = set_next h3 b (next_b v);
          h5 = set_prev h4 b (prev_b v)
      in set_magic h5 b (magic v))"

definition zero_list :: FreeList where
  "zero_list = \<lparr>block_size = 0, head = 0, count = 0\<rparr>"

text \<open>The pool object after \<open>memset(pool, 0, sizeof(MemoryPool))\<close>.\<close>

definition zero_pool :: MemoryPool where
  "zero_pool = \<lparr>pool_signature = 0, memory = 0, total_size = 0, used_size = 0,
     peak_usage = 0, alignment = 0, num_allocations = 0, num_deallocations = 0,
     num_blocks = 0, fragmentation_count = 0, free_lists = replicate 32 zero_list,
     first_block = 0, enable_debugging = False, name = []\<rparr>"

definition set_head :: "MemoryPool \<Rightarrow> nat \<Rightarrow> addr \<Rightarrow> MemoryPool" where
  "set_head p i v = p\<lparr>free_lists := (free_lists p)[i := (free_lists p ! i)\<lparr>head := v\<rparr>]\<rparr>"

definition set_count :: "MemoryPool \<Rightarrow> nat \<Rightarrow> size_t \<Rightarrow> MemoryPool" where
  "set_count p i v = p\<lparr>free_lists := (free_lists p)[i := (free_lists p ! i)\<lparr>count := v\<rparr>]\<rparr>"

subsection \<open>Size arithmetic\<close>

definition align_size :: "size_t \<Rightarrow> size_t \<Rightarrow> size_t" where
  "align_size sz al = (sz + al - 1) AND NOT (al - 1)"

text \<open>
  The loop of \<open>get_free_list_index\<close>. The index stays below 32, so it is a
  natural number; the threshold is a \<open>size_t\<close>.
\<close>

function free_list_index_loop :: "nat \<Rightarrow> size_t \<Rightarrow> size_t \<Rightarrow> nat" where
  "free_list_index_loop index threshold sz =
     (if index < MAX_FREE_LISTS - 1 \<and> sz > threshold
      then free_list_index_loop (index + 1) (threshold * 2) sz
      else index)"
  by pat_completeness auto
termination
  by (relation "measure (\<lambda>(index, threshold, sz). MAX_FREE_LISTS - 1 - index)") auto

declare free_list_index_loop.simps [simp del]

definition get_free_list_index :: "size_t \<Rightarrow> nat" where
  "get_free_list_index sz =
     (if sz \<le> 16 then 0
      else if sz \<le> 32 then 1
      else if sz \<le> 64 then 2
      else if sz \<le> 128 then 3
      else if sz \<le> 256 then 4
      else if sz \<le> 512 then 5
      else if sz \<le> 1024 then 6
      else if sz \<le> 2048 then 7
      else if sz \<le> 4096 then 8
      else free_list_index_loop 9 8192 sz)"

subsection \<open>Initialisation\<close>

text \<open>
  \<open>memory_pool_init\<close> takes the pool reference (\<open>None\<close> is a null pointer, \<open>Some p\<close>
  the object it points to, with whatever contents it has), the requested size,
  the alignment and the name (\<open>None\<close> is a null string). The two calls into the
  operating system are parameters: \<open>pagesize\<close> is the result of \<open>getpagesize()\<close>,
  and \<open>mapped\<close> is the result of \<open>mmap\<close> (\<open>None\<close> is \<open>MAP_FAILED\<close>, \<open>Some base\<close>
  the address of the zero-filled region). The result is the returned flag, the
  pool object and the memory afterwards.
\<close>

definition memory_pool_init ::
  "MemoryPool option \<Rightarrow> heap \<Rightarrow> size_t \<Rightarrow> size_t \<Rightarrow> string option \<Rightarrow> size_t \<Rightarrow> addr option
     \<Rightarrow> bool \<times> MemoryPool option \<times> heap" where
  "memory_pool_init pool_ref h sz al nm pagesize mapped =
     (case pool_ref of
        None \<Rightarrow> (False, None, h)
      | Some p \<Rightarrow>
          if sz = 0 then (False, Some p, h)
          else
            let sz' = align_size sz pagesize in
            (case mapped of
               None \<Rightarrow> (False, Some p, h)
             | Some base \<Rightarrow>
                 let p1 = zero_pool\<lparr>pool_signature := POOL_SIGNATURE, memory := base,
                            total_size := sz',
                            alignment := (if al > 0 then al else DEFAULT_ALIGNMENT),
                            enable_debugging := False,
                            name := (case nm of Some s \<Rightarrow> take 63 s | None \<Rightarrow> ''unnamed'')\<rparr>;
                     initial_block = base;
                     h1 = store zero_heap initial_block
                            \<lparr>signature = BLOCK_SIGNATURE, size_b = sz' - sizeof_BlockHeader,
                             is_free = True, next_b = 0, prev_b = 0, magic = BLOCK_SIGNATURE\<rparr>;
                     p2 = p1\<lparr>first_block := initial_block, num_blocks := 1\<rparr>;
                     list_index = get_free_list_index (size_b (load h1 initial_block));
                     p3 = set_count (set_head p2 list_index initial_block) list_index 1
                 in (True, Some p3, h1)))"

subsection \<open>Block helpers\<close>

definition validate_block :: "heap \<Rightarrow> addr \<Rightarrow> bool" where
  "validate_block h block =
     (block \<noteq> 0 \<and> signature (load h block) = BLOCK_SIGNATURE \<and>
      magic (load h block) = BLOCK_SIGNATURE \<and> size_b (load h block) > 0)"

text \<open>
  The helpers below are only called with the pool that the calling operation
  has already checked, so their \<open>!pool\<close> guard cannot fire; the pool is part of
  the machine state. A null result of \<open>split_block\<close> is the address \<open>0\<close>.
\<close>

definition split_block :: "machine \<Rightarrow> addr \<Rightarrow> size_t \<Rightarrow> addr \<times> machine" where
  "split_block st block requested_size =
     (let h = mem st; p = pool st in
      if block = 0 \<or> \<not> validate_block h block then (0, st)
      else
        let aligned_size = align_size requested_size (alignment p);
            remaining_size = size_b (load h block) - aligned_size
        in
        if remaining_size < sizeof_BlockHeader + MIN_BLOCK_SIZE then (0, st)
        else
          let new_block = block + sizeof_BlockHeader + aligned_size;
              h1 = store h new_block
                     \<lparr>signature = BLOCK_SIGNATURE, size_b = remaining_size - sizeof_BlockHeader,
                      is_free = True, next_b = 0, prev_b = block, magic = BLOCK_SIGNATURE\<rparr>;
              h2 = set_size h1 block aligned_size;
              h3 = (if next_b (load h2 block) \<noteq> 0
                    then (let h2' = set_prev h2 (next_b (load h2 block)) new_block
                          in set_next h2' new_block (next_b (load h2' block)))
                    else h2);
              h4 = set_next h3 block new_block
          in (new_block, st\<lparr>mem := h4, pool := p\<lparr>num_blocks := num_blocks p + 1\<rparr>\<rparr>))"

text \<open>
  The two \<open>while\<close> statements of \<open>coalesce_blocks\<close> follow pointers read from
  memory, so each takes a bound on the number of iterations and returns \<open>None\<close>
  when the bound is used up before it ends. \<open>merge_next\<close> and \<open>merge_prev\<close> are the bodies
  of the two branches commented "Merge blocks" in the source.
\<close>

definition merge_next :: "machine \<Rightarrow> addr \<Rightarrow> machine" where
  "merge_next st block =
     (let h = mem st; next_block = next_b (load h block);
          h1 = set_size h block
                 (size_b (load h block) + (sizeof_BlockHeader + size_b (load h next_block)));
          h2 = set_next h1 block (next_b (load h1 next_block));
          h3 = (if next_b (load h2 next_block) \<noteq> 0
                then set_prev h2 (next_b (load h2 next_block)) block else h2)
      in st\<lparr>mem := h3, pool := (pool st)\<lparr>num_blocks := num_blocks (pool st) - 1\<rparr>\<rparr>)"

fun coalesce_next :: "nat \<Rightarrow> machine \<Rightarrow> addr \<Rightarrow> machine option" where
  "coalesce_next 0 st block = None"
| "coalesce_next (Suc fuel) st block =
     (if next_b (load (mem st) block) \<noteq> 0 \<and>
         is_free (load (mem st) (next_b (load (mem st) block))) \<and>
         validate_block (mem st) (next_b (load (mem st) block))
      then
        if block + sizeof_BlockHeader + size_b (load (mem st) block) = next_b (load (mem st) block)
        then coalesce_next fuel (merge_next st block) block
        else Some st
      else Some st)"

definition merge_prev :: "machine \<Rightarrow> addr \<Rightarrow> machine" where
  "merge_prev st block =
     (let h = mem st; prev_block = prev_b (load h block);
          h1 = set_size h prev_block
                 (size_b (load h prev_block) + (sizeof_BlockHeader + size_b (load h block)));
          h2 = set_next h1 prev_block (next_b (load h1 block));
          h3 = (if next_b (load h2 block) \<noteq> 0
                then set_prev h2 (next_b (load h2 block)) prev_block else h2)
      in st\<lparr>mem := h3, pool := (pool st)\<lparr>num_blocks := num_blocks (pool st) - 1\<rparr>\<rparr>)"

fun coalesce_prev :: "nat \<Rightarrow> machine \<Rightarrow> addr \<Rightarrow> (addr \<times> machine) option" where
  "coalesce_prev 0 st block = None"
| "coalesce_prev (Suc fuel) st block =
     (if prev_b (load (mem st) block) \<noteq> 0 \<and>
         is_free (load (mem st) (prev_b (load (mem st) block))) \<and>
         validate_block (mem st) (prev_b (load (mem st) block))
      then
        if prev_b (load (mem st) block) + sizeof_BlockHeader +
             size_b (load (mem st) (prev_b (load (mem st) block))) = block
        then coalesce_prev fuel (merge_prev st block) (prev_b (load (mem st) block))
        else Some (block, st)
      else Some (block, st))"

definition coalesce_blocks :: "nat \<Rightarrow> machine \<Rightarrow> addr \<Rightarrow> (addr \<times> machine) option" where
  "coalesce_blocks fuel st block =
     (if block = 0 \<or> \<not> validate_block (mem st) block \<or> \<not> is_free (load (mem st) block)
      then Some (block, st)
      else (case coalesce_next fuel st block of
              None \<Rightarrow> None
            | Some st1 \<Rightarrow> coalesce_prev fuel st1 block))"

definition remove_from_free_list :: "machine \<Rightarrow> addr \<Rightarrow> nat \<Rightarrow> machine" where
  "remove_from_free_list st block list_index =
     (if block = 0 \<or> list_index \<ge> MAX_FREE_LISTS then st
      else
        let p = pool st; h = mem st;
            p1 = (if head (free_lists p ! list_index) = block
                  then set_head p list_index (next_b (load h block)) else p);
            h1 = (if next_b (load h block) \<noteq> 0
                  then set_prev h (next_b (load h block)) (prev_b (load h block)) else h);
            h2 = (if prev_b (load h1 block) \<noteq> 0
                  then set_next h1 (prev_b (load h1 block)) (next_b (load h1 block)) else h1);
            p2 = set_count p1 list_index (count (free_lists p1 ! list_index) - 1);
            h3 = set_next h2 block 0;
            h4 = set_prev h3 block 0
        in st\<lparr>pool := p2, mem := h4\<rparr>)"

definition add_to_free_list :: "machine \<Rightarrow> addr \<Rightarrow> machine" where
  "add_to_free_list st block =
     (if block = 0 \<or> \<not> validate_block (mem st) block then st
      else
        let p = pool st; h = mem st;
            list_index = get_free_list_index (size_b (load h block));
            h1 = set_next h block (head (free_lists p ! list_index));
            h2 = set_prev h1 block 0;
            h3 = (if head (free_lists p ! list_index) \<noteq> 0
                  then set_prev h2 (head (free_lists p ! list_index)) block else h2);
            p1 = set_head p list_index block;
            p2 = set_count p1 list_index (count (free_lists p1 ! list_index) + 1)
        in st\<lparr>pool := p2, mem := h3\<rparr>)"

subsection \<open>Allocation\<close>

text \<open>
  The inner loop of the search walks one free list. Its state is the pair
  \<open>(best_block, best_list_index)\<close>, with \<open>0\<close> for a null \<open>best_block\<close>; it
  ends at a null pointer or at the \<open>break\<close> of a perfect fit. The outer loop
  tests for the perfect fit again, as the code does, and otherwise goes on to
  the next list with the pair it has.
\<close>

fun search_list ::
  "nat \<Rightarrow> heap \<Rightarrow> size_t \<Rightarrow> nat \<Rightarrow> addr \<Rightarrow> addr \<times> nat \<Rightarrow> (addr \<times> nat) option" where
  "search_list 0 h aligned_size i block best = None"
| "search_list (Suc fuel) h aligned_size i block best =
     (if block = 0 then Some best
      else if validate_block h block \<and> is_free (load h block) \<and>
              size_b (load h block) \<ge> aligned_size
      then
        if fst best = 0 \<or> size_b (load h block) < size_b (load h (fst best)) then
          if size_b (load h block) = aligned_size then Some (block, i)
          else search_list fuel h aligned_size i (next_b (load h block)) (block, i)
        else search_list fuel h aligned_size i (next_b (load h block)) best
      else search_list fuel h aligned_size i (next_b (load h block)) best)"

function search_free_lists ::
  "nat \<Rightarrow> machine \<Rightarrow> size_t \<Rightarrow> nat \<Rightarrow> addr \<times> nat \<Rightarrow> (addr \<times> nat) option" where
  "search_free_lists fuel st aligned_size i best =
     (if i < MAX_FREE_LISTS then
        (case search_list fuel (mem st) aligned_size i (head (free_lists (pool st) ! i)) best of
           None \<Rightarrow> None
         | Some best' \<Rightarrow>
             if fst best' \<noteq> 0 \<and> size_b (load (mem st) (fst best')) = aligned_size then Some best'
             else search_free_lists fuel st aligned_size (i + 1) best')
      else Some best)"
  by pat_completeness auto
termination
  by (relation "measure (\<lambda>(fuel, st, aligned_size, i, best). MAX_FREE_LISTS - i)") auto

declare search_free_lists.simps [simp del]

text \<open>
  \<open>take_block\<close> is the second half of \<open>memory_pool_alloc\<close>, from "Remove from free
  list" to the \<open>return\<close>: it unlinks the chosen block, splits it, marks it as
  allocated, updates the statistics and returns the payload address.
\<close>

definition take_block :: "machine \<Rightarrow> addr \<Rightarrow> nat \<Rightarrow> size_t \<Rightarrow> addr \<times> machine" where
  "take_block st best_block best_list_index aligned_size =
     (let st1 = remove_from_free_list st best_block best_list_index;
          (split_result, st2) = split_block st1 best_block aligned_size;
          st3 = (if split_result \<noteq> 0 then add_to_free_list st2 split_result else st2);
          h4 = set_free (mem st3) best_block False;
          p4 = pool st3;
          p5 = p4\<lparr>used_size := used_size p4 + size_b (load h4 best_block),
                  num_allocations := num_allocations p4 + 1\<rparr>;
          p6 = (if used_size p5 > peak_usage p5 then p5\<lparr>peak_usage := used_size p5\<rparr> else p5)
      in (best_block + sizeof_BlockHeader, \<lparr>pool = p6, mem = h4\<rparr>))"

text \<open>
  \<open>memory_pool_alloc\<close> returns the payload address (\<open>0\<close> for \<open>NULL\<close>) and the new
  state; \<open>None\<close> means that the bound on the list walks was used up.
\<close>

definition memory_pool_alloc :: "nat \<Rightarrow> machine \<Rightarrow> size_t \<Rightarrow> (addr \<times> machine) option" where
  "memory_pool_alloc fuel st sz =
     (let p = pool st in
      if pool_signature p \<noteq> POOL_SIGNATURE \<or> sz = 0 then Some (0, st)
      else
        let aligned_size = align_size sz (alignment p);
            total = aligned_size + sizeof_BlockHeader
        in
        if total > total_size p - used_size p then Some (0, st)
        else
          (case search_free_lists fuel st aligned_size (get_free_list_index aligned_size) (0, 0) of
             None \<Rightarrow> None
           | Some (best_block, best_list_index) \<Rightarrow>
               if best_block = 0 then Some (0, st)
               else Some (take_block st best_block best_list_index aligned_size)))"

subsection \<open>Deallocation\<close>

text \<open>
  \<open>memory_pool_free\<close> returns nothing in C; the model also reports which way it
  was left: silently at the entry guard, with the log message for an invalid
  header, with the log message for a double free, or after freeing the block.
\<close>

datatype free_report = Ignored | InvalidHeader | DoubleFree | Freed

definition memory_pool_free :: "nat \<Rightarrow> machine \<Rightarrow> addr \<Rightarrow> (free_report \<times> machine) option" where
  "memory_pool_free fuel st ptr =
     (let p = pool st; h = mem st in
      if pool_signature p \<noteq> POOL_SIGNATURE \<or> ptr = 0 then Some (Ignored, st)
      else
        let block = ptr - sizeof_BlockHeader in
        if \<not> validate_block h block then Some (InvalidHeader, st)
        else if is_free (load h block) then Some (DoubleFree, st)
        else
          let p1 = p\<lparr>used_size := used_size p - size_b (load h block),
                     num_deallocations := num_deallocations p + 1\<rparr>;
              h1 = set_free h block True
          in (case coalesce_blocks fuel \<lparr>pool = p1, mem = h1\<rparr> block of
                None \<Rightarrow> None
              | Some (block', st2) \<Rightarrow> Some (Freed, add_to_free_list st2 block')))"

subsection \<open>Validation\<close>

text \<open>
  The walk of \<open>validate_pool\<close> is bounded by the code itself: it gives up after
  10000 blocks. \<open>None\<close> is the early \<open>return false\<close>; \<open>Some s\<close> is the sum of the
  sizes of the blocks in use when the walk reaches a null pointer.
\<close>

function validate_walk :: "heap \<Rightarrow> addr \<Rightarrow> nat \<Rightarrow> size_t \<Rightarrow> size_t option" where
  "validate_walk h current total_blocks calculated_used =
     (if current = 0 then Some calculated_used
      else if \<not> validate_block h current then None
      else
        let calculated_used' =
              (if \<not> is_free (load h current) then calculated_used + size_b (load h current)
               else calculated_used);
            total_blocks' = total_blocks + 1
        in if total_blocks' > 10000 then None
           else validate_walk h (next_b (load h current)) total_blocks' calculated_used')"
  by pat_completeness auto
termination
  by (relation "measure (\<lambda>(h, current, total_blocks, calculated_used). 10001 - total_blocks)") auto

declare validate_walk.simps [simp del]

definition validate_pool :: "machine \<Rightarrow> bool" where
  "validate_pool st =
     (let p = pool st in
      if pool_signature p \<noteq> POOL_SIGNATURE then False
      else if memory p = 0 \<or> total_size p = 0 then False
      else (case validate_walk (mem st) (first_block p) 0 0 of
              None \<Rightarrow> False
            | Some calculated_used \<Rightarrow> calculated_used = used_size p))"

subsection \<open>Clients\<close>

text \<open>
  \<open>init_machine\<close> is a caller that owns a zeroed pool object, passes no name and
  keeps the result of a successful \<open>memory_pool_init\<close>.
\<close>

definition init_machine :: "size_t \<Rightarrow> size_t \<Rightarrow> size_t \<Rightarrow> addr \<Rightarrow> machine option" where
  "init_machine sz al pagesize base =
     (case memory_pool_init (Some zero_pool) zero_heap sz al None pagesize (Some base) of
        (ok, Some p, h) \<Rightarrow> if ok then Some \<lparr>pool = p, mem = h\<rparr> else None
      | (ok, None, h) \<Rightarrow> None)"

text \<open>
  A client script is a list of requests. \<open>Alloc n\<close> calls \<open>memory_pool_alloc\<close> and
  records the returned address; \<open>Free i\<close> passes the address returned by the
  \<open>i\<close>-th \<open>Alloc\<close> of the script (counted from 0) to \<open>memory_pool_free\<close>, and does
  nothing when there is no such address.
\<close>

datatype request = Alloc size_t | Free nat

fun run_script ::
  "nat \<Rightarrow> machine \<Rightarrow> addr list \<Rightarrow> request list \<Rightarrow> (machine \<times> addr list) option" where
  "run_script fuel st ps [] = Some (st, ps)"
| "run_script fuel st ps (Alloc n # rs) =
     (case memory_pool_alloc fuel st n of
        None \<Rightarrow> None
      | Some (p, st') \<Rightarrow> run_script fuel st' (ps @ [p]) rs)"
| "run_script fuel st ps (Free i # rs) =
     (if i < length ps then
        (case memory_pool_free fuel st (ps ! i) of
           None \<Rightarrow> None
         | Some (r, st') \<Rightarrow> run_script fuel st' ps rs)
      else run_script fuel st ps rs)"

text \<open>
  The running example: a pool of 4096 bytes, on a machine with pages of 4096
  bytes, whose region was mapped at address \<open>0x10000\<close>; every list walk may take
  up to 100 steps. The alignment is 8 unless said otherwise.
\<close>

definition demo_aligned :: "size_t \<Rightarrow> request list \<Rightarrow> (machine \<times> addr list) option" where
  "demo_aligned al rs =
     (case init_machine 4096 al 4096 0x10000 of
        None \<Rightarrow> None
      | Some st \<Rightarrow> run_script 100 st [] rs)"

definition demo :: "request list \<Rightarrow> (machine \<times> addr list) option" where
  "demo rs = demo_aligned 8 rs"

text \<open>
  \<open>run_log\<close> runs a script like \<open>run_script\<close> and records what the client
  observes: the address that each \<open>Alloc\<close> returned and the way each \<open>Free\<close> was
  left.
\<close>

datatype event = Returned addr | Reported free_report

fun run_log ::
  "nat \<Rightarrow> machine \<Rightarrow> addr list \<Rightarrow> request list \<Rightarrow> event list option" where
  "run_log fuel st ps [] = Some []"
| "run_log fuel st ps (Alloc n # rs) =
     (case memory_pool_alloc fuel st n of
        None \<Rightarrow> None
      | Some (p, st') \<Rightarrow> map_option ((#) (Returned p)) (run_log fuel st' (ps @ [p]) rs))"
| "run_log fuel st ps (Free i # rs) =
     (if i < length ps then
        (case memory_pool_free fuel st (ps ! i) of
           None \<Rightarrow> None
         | Some (r, st') \<Rightarrow> map_option ((#) (Reported r)) (run_log fuel st' ps rs))
      else run_log fuel st ps rs)"

definition demo_log :: "request list \<Rightarrow> event list option" where
  "demo_log rs =
     (case init_machine 4096 8 4096 0x10000 of
        None \<Rightarrow> None
      | Some st \<Rightarrow> run_log 100 st [] rs)"

subsection \<open>What the specification says about the block chain\<close>

text \<open>
  The block chain is what a walk from \<open>first_block\<close> along the \<open>next\<close> pointers
  visits, as \<open>validate_pool\<close> and \<open>dump_pool_layout\<close> do it. \<open>None\<close> means that the
  walk did not reach a null pointer within the bound.
\<close>

fun block_chain :: "nat \<Rightarrow> heap \<Rightarrow> addr \<Rightarrow> addr list option" where
  "block_chain 0 h a = None"
| "block_chain (Suc fuel) h a =
     (if a = 0 then Some []
      else (case block_chain fuel h (next_b (load h a)) of
              None \<Rightarrow> None
            | Some bs \<Rightarrow> Some (a # bs)))"

text \<open>The sum over the given blocks of header size plus payload size.\<close>

definition chain_bytes :: "heap \<Rightarrow> addr list \<Rightarrow> nat" where
  "chain_bytes h bs = (\<Sum>b\<leftarrow>bs. unat sizeof_BlockHeader + unat (size_b (load h b)))"

text \<open>The sum of the payload sizes of the given blocks whose free flag is false.\<close>

definition in_use_bytes :: "heap \<Rightarrow> addr list \<Rightarrow> nat" where
  "in_use_bytes h bs = (\<Sum>b\<leftarrow>filter (\<lambda>b. \<not> is_free (load h b)) bs. unat (size_b (load h b)))"

text \<open>
  Two blocks are physically adjacent when the second starts where the payload
  of the first ends. \<open>adjacent_free_pair\<close> finds the first two consecutive blocks
  of a chain that are physically adjacent and both free.
\<close>

fun adjacent_free_pair :: "heap \<Rightarrow> addr list \<Rightarrow> (addr \<times> addr) option" where
  "adjacent_free_pair h (a # b # bs) =
     (if a + sizeof_BlockHeader + size_b (load h a) = b \<and>
         is_free (load h a) \<and> is_free (load h b)
      then Some (a, b) else adjacent_free_pair h (b # bs))"
| "adjacent_free_pair h bs = None"

subsection \<open>What the specification says about the search\<close>

text \<open>
  A block is eligible for a request when the inner loop of \<open>memory_pool_alloc\<close>
  accepts it: its header validates, it is free and it is large enough.
  \<open>on_walk h a x\<close> says that the walk which starts at \<open>a\<close> and follows the \<open>next\<close>
  pointers until it meets a null pointer visits \<open>x\<close>.
\<close>

definition eligible :: "heap \<Rightarrow> size_t \<Rightarrow> addr \<Rightarrow> bool" where
  "eligible h needed b \<longleftrightarrow>
     validate_block h b \<and> is_free (load h b) \<and> needed \<le> size_b (load h b)"

inductive on_walk :: "heap \<Rightarrow> addr \<Rightarrow> addr \<Rightarrow> bool" for h :: heap where
  walk_here: "a \<noteq> 0 \<Longrightarrow> on_walk h a a"
| walk_next: "a \<noteq> 0 \<Longrightarrow> on_walk h (next_b (load h a)) x \<Longrightarrow> on_walk h a x"

text \<open>
  The search as the specification words it (section 4.4, step 2): for each
  class from the starting class up to 31, walk the bucket; among its free blocks
  of at least the needed size select the one with the smallest size, the
  earlier one on ties; if the bucket had any candidate, stop. The result
  \<open>(0, 0)\<close> stands for "no candidate in any bucket".
\<close>

definition candidates :: "heap \<Rightarrow> size_t \<Rightarrow> addr list \<Rightarrow> addr list" where
  "candidates h needed bs =
     filter (\<lambda>b. is_free (load h b) \<and> needed \<le> size_b (load h b)) bs"

fun smallest :: "heap \<Rightarrow> addr \<Rightarrow> addr list \<Rightarrow> addr" where
  "smallest h best [] = best"
| "smallest h best (b # bs) =
     smallest h (if size_b (load h b) < size_b (load h best) then b else best) bs"

definition spec_best_fit :: "heap \<Rightarrow> size_t \<Rightarrow> addr list \<Rightarrow> addr option" where
  "spec_best_fit h needed bs =
     (case candidates h needed bs of [] \<Rightarrow> None | c # cs \<Rightarrow> Some (smallest h c cs))"

function spec_search :: "nat \<Rightarrow> machine \<Rightarrow> size_t \<Rightarrow> nat \<Rightarrow> (addr \<times> nat) option" where
  "spec_search fuel st needed i =
     (if i < MAX_FREE_LISTS then
        (case block_chain fuel (mem st) (head (free_lists (pool st) ! i)) of
           None \<Rightarrow> None
         | Some bs \<Rightarrow>
             (case spec_best_fit (mem st) needed bs of
                Some b \<Rightarrow> Some (b, i)
              | None \<Rightarrow> spec_search fuel st needed (i + 1)))
      else Some (0, 0))"
  by pat_completeness auto
termination
  by (relation "measure (\<lambda>(fuel, st, needed, i). MAX_FREE_LISTS - i)") auto

declare spec_search.simps [simp del]

subsection \<open>Addresses inside the region\<close>

text \<open>
  \<open>header_in_region p b\<close>: the 48 bytes from the address \<open>b\<close> on lie inside the
  region of the pool \<open>p\<close> (addresses as integers, without wrap-around), so that
  the program can read a header there.
\<close>

definition header_in_region :: "MemoryPool \<Rightarrow> addr \<Rightarrow> bool" where
  "header_in_region p b \<longleftrightarrow>
     uint (memory p) \<le> uint b \<and>
     uint b + uint sizeof_BlockHeader \<le> uint (memory p) + uint (total_size p)"

subsection \<open>Writing down states of the running example\<close>

text \<open>
  \<open>intact\<close> is a header with both signatures in place; \<open>headers\<close> is the memory
  in which the given headers were written one after the other into a fresh
  region; \<open>buckets\<close> is the array of free lists in which the given indices have
  the given head and count; \<open>demo_pool\<close> is the pool object of the running
  example with the given counters and free lists.
\<close>

definition intact :: "size_t \<Rightarrow> bool \<Rightarrow> addr \<Rightarrow> addr \<Rightarrow> BlockHeader" where
  "intact sz fr nx pv =
     \<lparr>signature = BLOCK_SIGNATURE, size_b = sz, is_free = fr, next_b = nx, prev_b = pv,
      magic = BLOCK_SIGNATURE\<rparr>"

definition headers :: "(addr \<times> BlockHeader) list \<Rightarrow> heap" where
  "headers xs = fold (\<lambda>(b, v) h. store h b v) xs zero_heap"

definition buckets :: "(nat \<times> addr \<times> size_t) list \<Rightarrow> FreeList list" where
  "buckets xs =
     fold (\<lambda>(i, hd_i, n) ls. ls[i := \<lparr>block_size = 0, head = hd_i, count = n\<rparr>]) xs
       (replicate 32 zero_list)"

definition demo_pool ::
  "size_t \<Rightarrow> size_t \<Rightarrow> size_t \<Rightarrow> size_t \<Rightarrow> size_t \<Rightarrow> (nat \<times> addr \<times> size_t) list \<Rightarrow> MemoryPool"
  where
  "demo_pool used peak allocs deallocs blocks xs =
     \<lparr>pool_signature = POOL_SIGNATURE, memory = 0x10000, total_size = 4096, used_size = used,
      peak_usage = peak, alignment = 8, num_allocations = allocs, num_deallocations = deallocs,
      num_blocks = blocks, fragmentation_count = 0, free_lists = buckets xs,
      first_block = 0x10000, enable_debugging = False, name = ''unnamed''\<rparr>"

text \<open>The running example right after \<open>memory_pool_init\<close>.\<close>

definition fresh :: machine where
  "fresh =
     \<lparr>pool = demo_pool 0 0 0 0 1 [(8, 65536, 1)],
      mem = headers [(65536, intact 4048 True 0 0)]\<rparr>"

text \<open>After \<open>alloc(32)\<close>, which returns \<open>65584\<close>.\<close>

definition after_alloc_32 :: machine where
  "after_alloc_32 =
     \<lparr>pool = demo_pool 32 32 1 0 2 [(8, 65616, 1)],
      mem = headers [(65536, intact 32 False 65616 0), (65616, intact 3968 True 0 0)]\<rparr>"

text \<open>The same state after the client has overwritten the \<open>magic\<close> of its block.\<close>

definition after_overrun :: machine where
  "after_overrun =
     after_alloc_32\<lparr>mem := set_magic (mem after_alloc_32) 65536 0\<rparr>"

text \<open>After \<open>alloc(32)\<close> and the \<open>free\<close> of its result.\<close>

definition after_free_32 :: machine where
  "after_free_32 =
     \<lparr>pool = demo_pool 0 32 1 1 1 [(8, 65536, 2)],
      mem = headers [(65536, intact 4048 True 65616 0), (65616, intact 3968 True 0 65536)]\<rparr>"

text \<open>
  After \<open>alloc(4000)\<close> on that state: the merged block, which was the head of
  bucket 8 with the stale header behind it, is handed out unsplit.
\<close>

definition after_realloc_4000 :: machine where
  "after_realloc_4000 =
     \<lparr>pool = demo_pool 4048 4048 2 1 1 [(8, 65616, 1)],
      mem = headers [(65536, intact 4048 False 0 0), (65616, intact 3968 True 0 0)]\<rparr>"

text \<open>
  After \<open>p = alloc(3000); free(p); q = alloc(3000); free(q)\<close>, and after
  \<open>r = alloc(1000); free(r)\<close> on top of that.
\<close>

definition after_round_trips :: machine where
  "after_round_trips =
     \<lparr>pool = demo_pool 0 3000 2 2 1 [(6, 68584, 2), (8, 65536, 1)],
      mem = headers [(65536, intact 4048 True 0 0), (68584, intact 1000 True 68584 65536)]\<rparr>"

definition after_third_round_trip :: machine where
  "after_third_round_trip =
     \<lparr>pool = demo_pool 0 3000 3 3 1 [(6, 68584, 2), (8, 65536, 1)],
      mem = headers [(65536, intact 4048 True 68584 0), (68584, intact 1000 True 68584 68584)]\<rparr>"

text \<open>
  After \<open>p = alloc(3000); free(p); a = alloc(200); b = alloc(200); free(a); free(b);
  alloc(3000)\<close>, and after \<open>alloc(100)\<close> on top of that.
\<close>

definition misfiled :: machine where
  "misfiled =
     \<lparr>pool = demo_pool 3000 3000 4 3 3 [(4, 68584, 1), (5, 69080, 1), (6, 68584, 2)],
      mem = headers [(65536, intact 3000 False 68584 0), (68584, intact 1000 True 68832 0),
                     (68832, intact 752 True 0 68584), (69080, intact 504 True 0 0)]\<rparr>"

definition after_misfiled_alloc :: machine where
  "after_misfiled_alloc =
     \<lparr>pool = demo_pool 3104 3104 5 3 4 [(4, 68584, 1), (5, 69232, 1), (6, 68584, 2)],
      mem = headers [(65536, intact 3000 False 68584 0), (68584, intact 1000 True 68832 0),
                     (68832, intact 752 True 0 68584), (69080, intact 104 False 69232 0),
                     (69232, intact 352 True 0 0)]\<rparr>"

section \<open>Reading and writing memory\<close>

lemma map_of_put_at: "map_of (put_at h k w) = (map_of h)(k \<mapsto> w)"
  by (induction h) auto

lemma cell_put [simp]: "cell (put h a w) x = (if x = a then w else cell h x)"
  by (simp add: cell_def put_def map_of_put_at flip: word_uint_eq_iff)

text \<open>A field of a header is read from one cell.\<close>

lemma load_fields [code_unfold]:
  "signature (load h b) = ucast (cell h b)"
  "size_b (load h b) = cell h (b + 8)"
  "is_free (load h b) = ((ucast (cell h (b + 16)) :: 8 word) \<noteq> 0)"
  "next_b (load h b) = cell h (b + 24)"
  "prev_b (load h b) = cell h (b + 32)"
  "magic (load h b) = ucast (cell h (b + 40))"
  by (simp_all add: load_def)

lemma low_byte_flag:
  "(ucast ((c AND NOT (mask 8)) OR (if v then 1 else 0) :: 64 word) :: 8 word) \<noteq> 0 \<longleftrightarrow> v"
proof -
  have "(ucast ((c AND NOT (mask 8)) OR (if v then 1 else 0) :: 64 word) :: 8 word)
          = (if v then 1 else 0)"
    by (rule bit_word_eqI) (auto simp: bit_simps)
  then show ?thesis
    by simp
qed

text \<open>
  An assignment to a field of the header at \<open>b\<close> changes that field and no
  other field of the same header.
\<close>

lemma load_set_size_same: "load (set_size h b v) b = (load h b)\<lparr>size_b := v\<rparr>"
  by (simp add: load_def set_size_def)

lemma load_set_free_same: "load (set_free h b v) b = (load h b)\<lparr>is_free := v\<rparr>"
  by (simp add: load_def set_free_def low_byte_flag)

lemma load_set_next_same: "load (set_next h b v) b = (load h b)\<lparr>next_b := v\<rparr>"
  by (simp add: load_def set_next_def)

lemma load_set_prev_same: "load (set_prev h b v) b = (load h b)\<lparr>prev_b := v\<rparr>"
  by (simp add: load_def set_prev_def)

lemmas load_sets = load_set_size_same load_set_free_same load_set_next_same load_set_prev_same

lemma remove_from_free_list_links:
  assumes "block \<noteq> 0" and "list_index < MAX_FREE_LISTS"
  shows "next_b (load (mem (remove_from_free_list st block list_index)) block) = 0"
    and "prev_b (load (mem (remove_from_free_list st block list_index)) block) = 0"
  using assms by (simp_all add: remove_from_free_list_def Let_def load_sets)

lemma set_head_fields [simp]:
  "pool_signature (set_head p i v) = pool_signature p"
  "memory (set_head p i v) = memory p"
  "total_size (set_head p i v) = total_size p"
  "alignment (set_head p i v) = alignment p"
  "num_blocks (set_head p i v) = num_blocks p"
  "num_deallocations (set_head p i v) = num_deallocations p"
  by (simp_all add: set_head_def)

lemma set_count_fields [simp]:
  "pool_signature (set_count p i v) = pool_signature p"
  "memory (set_count p i v) = memory p"
  "total_size (set_count p i v) = total_size p"
  "alignment (set_count p i v) = alignment p"
  "num_blocks (set_count p i v) = num_blocks p"
  "num_deallocations (set_count p i v) = num_deallocations p"
  by (simp_all add: set_count_def)

lemma remove_from_free_list_fields [simp]:
  "pool_signature (pool (remove_from_free_list st b i)) = pool_signature (pool st)"
  "memory (pool (remove_from_free_list st b i)) = memory (pool st)"
  "total_size (pool (remove_from_free_list st b i)) = total_size (pool st)"
  "alignment (pool (remove_from_free_list st b i)) = alignment (pool st)"
  "num_blocks (pool (remove_from_free_list st b i)) = num_blocks (pool st)"
  "num_deallocations (pool (remove_from_free_list st b i)) = num_deallocations (pool st)"
  by (simp_all add: remove_from_free_list_def Let_def)

lemma add_to_free_list_fields [simp]:
  "pool_signature (pool (add_to_free_list st b)) = pool_signature (pool st)"
  "memory (pool (add_to_free_list st b)) = memory (pool st)"
  "total_size (pool (add_to_free_list st b)) = total_size (pool st)"
  "alignment (pool (add_to_free_list st b)) = alignment (pool st)"
  "num_blocks (pool (add_to_free_list st b)) = num_blocks (pool st)"
  "num_deallocations (pool (add_to_free_list st b)) = num_deallocations (pool st)"
  by (simp_all add: add_to_free_list_def Let_def)

lemma split_block_cases:
  assumes "split_block st block requested_size = (split_result, st2)"
  shows "(split_result = 0 \<and> st2 = st) \<or> num_blocks (pool st2) = num_blocks (pool st) + 1"
  using assms by (auto simp: split_block_def Let_def split: if_splits)

lemma take_block_num_blocks:
  assumes "take_block st best i aligned = (p, st')"
    and "num_blocks (pool st') = num_blocks (pool st)"
  shows "mem st' = set_free (mem (remove_from_free_list st best i)) best False"
proof -
  obtain sr st2 where sp: "split_block (remove_from_free_list st best i) best aligned = (sr, st2)"
    by (cases "split_block (remove_from_free_list st best i) best aligned")
  from split_block_cases [OF sp]
  show ?thesis
  proof
    assume "sr = 0 \<and> st2 = remove_from_free_list st best i"
    with assms(1) sp show ?thesis
      by (auto simp: take_block_def Let_def)
  next
    assume "num_blocks (pool st2) = num_blocks (pool (remove_from_free_list st best i)) + 1"
    with assms(1) sp have "num_blocks (pool st') = num_blocks (pool st) + 1"
      by (auto simp: take_block_def Let_def split: if_splits)
    with assms(2) show ?thesis
      by simp
  qed
qed

section \<open>States of the running example\<close>

lemma demo_fresh: "demo [] = Some (fresh, [])"
  by code_simp

lemma alloc_32_fresh: "memory_pool_alloc 100 fresh 32 = Some (65584, after_alloc_32)"
  by code_simp

lemma free_after_alloc_32:
  "memory_pool_free 100 after_alloc_32 65584 = Some (Freed, after_free_32)"
  by code_simp

lemma realloc_4000:
  "memory_pool_alloc 100 after_free_32 4000 = Some (65584, after_realloc_4000)"
  by code_simp

lemma demo_round_trips:
  "demo [Alloc 3000, Free 0, Alloc 3000, Free 1] = Some (after_round_trips, [65584, 65584])"
  by code_simp

lemma demo_third_round_trip:
  "demo [Alloc 3000, Free 0, Alloc 3000, Free 1, Alloc 1000, Free 2]
     = Some (after_third_round_trip, [65584, 65584, 68632])"
  by code_simp

lemma demo_misfiled:
  "demo [Alloc 3000, Free 0, Alloc 200, Alloc 200, Free 1, Free 2, Alloc 3000]
     = Some (misfiled, [65584, 68632, 68880, 65584])"
  by code_simp

lemma alloc_100_misfiled:
  "memory_pool_alloc 100 misfiled 100 = Some (69128, after_misfiled_alloc)"
  by code_simp

section \<open>Entry checks of \<open>memory_pool_init\<close> and \<open>memory_pool_free\<close>\<close>

lemma validate_block_iff:
  "validate_block h b \<longleftrightarrow>
     b \<noteq> 0 \<and> signature (load h b) = BLOCK_SIGNATURE \<and>
     magic (load h b) = BLOCK_SIGNATURE \<and> size_b (load h b) \<noteq> 0"
  by (simp add: validate_block_def word_neq_0_conv)

text \<open>
  C7, as the code has it. \<open>memory_pool_init\<close> returns false and leaves the pool
  object and the memory untouched when the pool reference is null or the
  requested size is zero. It does not look at the alignment beyond replacing
  zero by the default: with a non-zero size and a successful mapping it returns
  true and records \<open>alignment > 0 ? alignment : DEFAULT_ALIGNMENT\<close>, whether that
  is a power of two or not.
\<close>

theorem init_checks_reference_and_size_only:
  "memory_pool_init None h sz al nm pagesize mapped = (False, None, h) \<and>
   memory_pool_init (Some p) h 0 al nm pagesize mapped = (False, Some p, h) \<and>
   (sz \<noteq> 0 \<longrightarrow>
      (\<exists>p' h'. memory_pool_init (Some p) h sz al nm pagesize (Some base) = (True, Some p', h') \<and>
         alignment p' = (if al > 0 then al else DEFAULT_ALIGNMENT)))"
  by (simp add: memory_pool_init_def Let_def set_count_def set_head_def)

theorem init_checks_reference_and_size_only_witness:
  "(4096 :: size_t) \<noteq> 0 \<and>
   (\<exists>p' h'. memory_pool_init (Some zero_pool) zero_heap 4096 24 None 4096 (Some 0x10000)
              = (True, Some p', h') \<and> alignment p' = 24)"
  using init_checks_reference_and_size_only
    [of zero_heap 4096 24 None 4096 None zero_pool "0x10000"]
  by simp

text \<open>
  C7 as stated fails: an alignment of 24, which is not a power of two, and an
  alignment of 0 are both accepted.
\<close>

theorem init_accepts_non_power_of_two_alignment:
  "fst (memory_pool_init (Some zero_pool) zero_heap 4096 24 None 4096 (Some 0x10000)) \<and>
   fst (memory_pool_init (Some zero_pool) zero_heap 4096 0 None 4096 (Some 0x10000))"
  by (simp add: memory_pool_init_def Let_def)

text \<open>
  C9. With an initialised pool and a non-null address whose header lies inside
  the region, \<open>memory_pool_free\<close> on an address whose header has a wrong
  \<open>signature\<close>, a wrong \<open>magic\<close> or a zero \<open>size\<close> takes the branch that logs
  "Invalid block header for free" and returns with the pool object and the
  memory exactly as they were; in particular \<open>used_size\<close> and
  \<open>num_deallocations\<close> are unmodified.
\<close>

theorem free_invalid_header_changes_nothing:
  assumes "pool_signature (pool st) = POOL_SIGNATURE" and "ptr \<noteq> 0"
    and "header_in_region (pool st) (ptr - sizeof_BlockHeader)"
    and "signature (load (mem st) (ptr - sizeof_BlockHeader)) \<noteq> BLOCK_SIGNATURE \<or>
         magic (load (mem st) (ptr - sizeof_BlockHeader)) \<noteq> BLOCK_SIGNATURE \<or>
         size_b (load (mem st) (ptr - sizeof_BlockHeader)) = 0"
  shows "memory_pool_free fuel st ptr = Some (InvalidHeader, st)"
  using assms by (auto simp: memory_pool_free_def Let_def validate_block_iff)

theorem free_invalid_header_changes_nothing_witness:
  "pool_signature (pool after_overrun) = POOL_SIGNATURE \<and> (65584 :: addr) \<noteq> 0 \<and>
   header_in_region (pool after_overrun) (65584 - sizeof_BlockHeader) \<and>
   magic (load (mem after_overrun) (65584 - sizeof_BlockHeader)) \<noteq> BLOCK_SIGNATURE \<and>
   memory_pool_free 100 after_overrun 65584 = Some (InvalidHeader, after_overrun)"
proof -
  have sig: "pool_signature (pool after_overrun) = POOL_SIGNATURE"
    by code_simp
  have ptr: "(65584 :: addr) \<noteq> 0"
    by simp
  have reg: "header_in_region (pool after_overrun) (65584 - sizeof_BlockHeader)"
    by code_simp
  have bad: "magic (load (mem after_overrun) (65584 - sizeof_BlockHeader)) \<noteq> BLOCK_SIGNATURE"
    by code_simp
  have "memory_pool_free 100 after_overrun 65584 = Some (InvalidHeader, after_overrun)"
    using bad by (intro free_invalid_header_changes_nothing [OF sig ptr reg]) simp
  with sig ptr reg bad show ?thesis
    by simp
qed

section \<open>The search of \<open>memory_pool_alloc\<close>\<close>

lemma on_walk_cases:
  "on_walk h a x \<longleftrightarrow> a \<noteq> 0 \<and> (x = a \<or> on_walk h (next_b (load h a)) x)"
  by (auto intro: on_walk.intros elim: on_walk.cases)

lemma search_list_origin:
  "search_list fuel h needed i a best = Some r \<Longrightarrow>
     r = best \<or> (snd r = i \<and> on_walk h a (fst r) \<and> eligible h needed (fst r))"
proof (induction fuel h needed i a best rule: search_list.induct)
  case (1 h needed i block best)
  then show ?case by simp
next
  case (2 fuel h needed i block best)
  show ?case
  proof (cases "block = 0")
    case True
    with "2.prems" show ?thesis by simp
  next
    case False
    note nz = this
    show ?thesis
    proof (cases "eligible h needed block")
      case el: True
      show ?thesis
      proof (cases "fst best = 0 \<or> size_b (load h block) < size_b (load h (fst best))")
        case better: True
        show ?thesis
        proof (cases "size_b (load h block) = needed")
          case True
          with "2.prems" nz el better have "r = (block, i)"
            by (auto simp: eligible_def)
          with nz el show ?thesis
            by (auto intro: walk_here)
        next
          case False
          with "2.prems" nz el better
          have "search_list fuel h needed i (next_b (load h block)) (block, i) = Some r"
            by (auto simp: eligible_def)
          from "2.IH"(1) [OF nz _ better False this] el
          have "r = (block, i) \<or>
                (snd r = i \<and> on_walk h (next_b (load h block)) (fst r) \<and> eligible h needed (fst r))"
            by (auto simp: eligible_def)
          with nz el show ?thesis
            by (auto intro: on_walk.intros)
        qed
      next
        case False
        with "2.prems" nz el
        have "search_list fuel h needed i (next_b (load h block)) best = Some r"
          by (auto simp: eligible_def)
        from "2.IH"(2) [OF nz _ False this] el nz show ?thesis
          by (auto simp: eligible_def intro: on_walk.intros)
      qed
    next
      case False
      with "2.prems" nz
      have "search_list fuel h needed i (next_b (load h block)) best = Some r"
        by (auto simp: eligible_def)
      from "2.IH"(3) [OF nz _ this] False nz show ?thesis
        by (auto simp: eligible_def intro: on_walk.intros)
    qed
  qed
qed

lemma search_list_min:
  assumes "search_list fuel h needed i a best = Some r"
    and "fst best \<noteq> 0 \<longrightarrow> eligible h needed (fst best)"
  shows "(fst r \<noteq> 0 \<longrightarrow> eligible h needed (fst r)) \<and>
         (fst best \<noteq> 0 \<longrightarrow> fst r \<noteq> 0 \<and> size_b (load h (fst r)) \<le> size_b (load h (fst best))) \<and>
         (\<forall>x. on_walk h a x \<and> eligible h needed x \<longrightarrow>
              fst r \<noteq> 0 \<and> size_b (load h (fst r)) \<le> size_b (load h x))"
  using assms
proof (induction fuel h needed i a best rule: search_list.induct)
  case (1 h needed i block best)
  then show ?case by simp
next
  case (2 fuel h needed i block best)
  have walk: "on_walk h block x \<longleftrightarrow> block \<noteq> 0 \<and> (x = block \<or> on_walk h (next_b (load h block)) x)"
    for x by (rule on_walk_cases)
  show ?case
  proof (cases "block = 0")
    case True
    have "\<not> on_walk h 0 x" for x
      using on_walk_cases [of h 0 x] by simp
    with True "2.prems" show ?thesis by auto
  next
    case False
    note nz = this
    have bnz: "eligible h needed block \<Longrightarrow> block \<noteq> 0"
      by (simp add: eligible_def validate_block_def)
    show ?thesis
    proof (cases "eligible h needed block")
      case el: True
      show ?thesis
      proof (cases "fst best = 0 \<or> size_b (load h block) < size_b (load h (fst best))")
        case better: True
        show ?thesis
        proof (cases "size_b (load h block) = needed")
          case True
          with "2.prems" nz el better have "r = (block, i)"
            by (auto simp: eligible_def)
          with True nz el "2.prems"(2) show ?thesis
            by (auto simp: eligible_def)
        next
          case False
          with "2.prems" nz el better
          have rec: "search_list fuel h needed i (next_b (load h block)) (block, i) = Some r"
            by (auto simp: eligible_def)
          have "fst (block, i) \<noteq> 0 \<longrightarrow> eligible h needed (fst (block, i))"
            using el by simp
          from "2.IH"(1) [OF nz _ better False rec this] el nz
          have ih: "(fst r \<noteq> 0 \<longrightarrow> eligible h needed (fst r))"
            "fst r \<noteq> 0 \<and> size_b (load h (fst r)) \<le> size_b (load h block)"
            "\<And>x. on_walk h (next_b (load h block)) x \<Longrightarrow> eligible h needed x \<Longrightarrow>
                 fst r \<noteq> 0 \<and> size_b (load h (fst r)) \<le> size_b (load h x)"
            by (auto simp: eligible_def)
          show ?thesis
            using ih better by (auto simp: walk)
        qed
      next
        case False
        with "2.prems" nz el
        have rec: "search_list fuel h needed i (next_b (load h block)) best = Some r"
          by (auto simp: eligible_def)
        from "2.IH"(2) [OF nz _ False rec "2.prems"(2)] el
        have ih: "(fst r \<noteq> 0 \<longrightarrow> eligible h needed (fst r))"
          "fst best \<noteq> 0 \<longrightarrow> fst r \<noteq> 0 \<and> size_b (load h (fst r)) \<le> size_b (load h (fst best))"
          "\<And>x. on_walk h (next_b (load h block)) x \<Longrightarrow> eligible h needed x \<Longrightarrow>
               fst r \<noteq> 0 \<and> size_b (load h (fst r)) \<le> size_b (load h x)"
          by (auto simp: eligible_def)
        from False have "fst best \<noteq> 0" "size_b (load h (fst best)) \<le> size_b (load h block)"
          by auto
        with ih show ?thesis
          by (auto simp: walk)
      qed
    next
      case False
      with "2.prems" nz
      have rec: "search_list fuel h needed i (next_b (load h block)) best = Some r"
        by (auto simp: eligible_def)
      from "2.IH"(3) [OF nz _ rec "2.prems"(2)] False
      have ih: "(fst r \<noteq> 0 \<longrightarrow> eligible h needed (fst r))"
        "fst best \<noteq> 0 \<longrightarrow> fst r \<noteq> 0 \<and> size_b (load h (fst r)) \<le> size_b (load h (fst best))"
        "\<And>x. on_walk h (next_b (load h block)) x \<Longrightarrow> eligible h needed x \<Longrightarrow>
             fst r \<noteq> 0 \<and> size_b (load h (fst r)) \<le> size_b (load h x)"
        by (auto simp: eligible_def)
      with False show ?thesis
        by (auto simp: walk)
    qed
  qed
qed

lemma search_free_lists_props:
  assumes "search_free_lists fuel st needed i best = Some r"
    and "fst best \<noteq> 0 \<longrightarrow> eligible (mem st) needed (fst best)"
  shows "(fst r \<noteq> 0 \<longrightarrow> eligible (mem st) needed (fst r)) \<and>
         (fst best \<noteq> 0 \<longrightarrow>
            fst r \<noteq> 0 \<and> size_b (load (mem st) (fst r)) \<le> size_b (load (mem st) (fst best))) \<and>
         (\<forall>j x. i \<le> j \<and> j < MAX_FREE_LISTS \<and>
                on_walk (mem st) (head (free_lists (pool st) ! j)) x \<and> eligible (mem st) needed x \<longrightarrow>
                fst r \<noteq> 0 \<and> size_b (load (mem st) (fst r)) \<le> size_b (load (mem st) x)) \<and>
         (r = best \<or>
            (i \<le> snd r \<and> snd r < MAX_FREE_LISTS \<and>
             on_walk (mem st) (head (free_lists (pool st) ! snd r)) (fst r)))"
  using assms
proof (induction fuel st needed i best arbitrary: r rule: search_free_lists.induct)
  case (1 fuel st needed i best)
  show ?case
  proof (cases "i < MAX_FREE_LISTS")
    case False
    with "1.prems" show ?thesis
      by (subst (asm) search_free_lists.simps) auto
  next
    case True
    from "1.prems"(1) True obtain best' where
      inner: "search_list fuel (mem st) needed i (head (free_lists (pool st) ! i)) best = Some best'"
      by (subst (asm) search_free_lists.simps) (auto split: option.splits)
    note m = search_list_min [OF inner "1.prems"(2)]
    note o = search_list_origin [OF inner]
    show ?thesis
    proof (cases "fst best' \<noteq> 0 \<and> size_b (load (mem st) (fst best')) = needed")
      case perfect: True
      with "1.prems"(1) True inner have r: "r = best'"
        by (subst (asm) search_free_lists.simps) auto
      have "\<And>x. eligible (mem st) needed x \<Longrightarrow> size_b (load (mem st) (fst r)) \<le> size_b (load (mem st) x)"
        using perfect r by (simp add: eligible_def)
      with m o r True perfect show ?thesis
        by auto
    next
      case False
      with "1.prems"(1) True inner
      have rec: "search_free_lists fuel st needed (i + 1) best' = Some r"
        by (subst (asm) search_free_lists.simps) auto
      from m have el': "fst best' \<noteq> 0 \<longrightarrow> eligible (mem st) needed (fst best')"
        by simp
      note ih = "1.IH" [OF True inner False rec el']
      have le: "i \<le> j \<Longrightarrow> j = i \<or> i + 1 \<le> j" for j
        by arith
      show ?thesis
      proof (intro conjI allI impI)
        show "fst r \<noteq> 0 \<Longrightarrow> eligible (mem st) needed (fst r)"
          using ih by simp
        show "fst best \<noteq> 0 \<Longrightarrow> fst r \<noteq> 0" using ih m by auto
        show "fst best \<noteq> 0 \<Longrightarrow> size_b (load (mem st) (fst r)) \<le> size_b (load (mem st) (fst best))"
          using ih m by (meson order_trans)
        show "r = best \<or>
            (i \<le> snd r \<and> snd r < MAX_FREE_LISTS \<and>
             on_walk (mem st) (head (free_lists (pool st) ! snd r)) (fst r))"
          using ih o True by auto
      next
        fix j x
        assume a: "i \<le> j \<and> j < MAX_FREE_LISTS \<and>
                on_walk (mem st) (head (free_lists (pool st) ! j)) x \<and> eligible (mem st) needed x"
        show "fst r \<noteq> 0" using a le [of j] ih m by blast
        show "size_b (load (mem st) (fst r)) \<le> size_b (load (mem st) x)"
        proof (cases "j = i")
          case True
          with a m have "fst best' \<noteq> 0" "size_b (load (mem st) (fst best')) \<le> size_b (load (mem st) x)"
            by auto
          with ih show ?thesis by (meson order_trans)
        next
          case False
          with a have "i + 1 \<le> j" by arith
          with a ih show ?thesis by blast
        qed
      qed
    qed
  qed
qed

lemma alloc_success:
  assumes "memory_pool_alloc fuel st n = Some (p, st')" and "p \<noteq> 0"
  obtains best i where
    "pool_signature (pool st) = POOL_SIGNATURE"
    "search_free_lists fuel st (align_size n (alignment (pool st)))
       (get_free_list_index (align_size n (alignment (pool st)))) (0, 0) = Some (best, i)"
    "best \<noteq> 0"
    "take_block st best i (align_size n (alignment (pool st))) = (p, st')"
  using assms
  by (auto simp: memory_pool_alloc_def Let_def split: if_splits option.splits prod.splits)

lemma take_block_address:
  "take_block st best i aligned = (p, st') \<Longrightarrow> p - sizeof_BlockHeader = best"
  by (auto simp: take_block_def Let_def split: prod.splits)

lemma search_result:
  assumes "search_free_lists fuel st needed c (0, 0) = Some (best, i)" and "best \<noteq> 0"
  shows "eligible (mem st) needed best" and "c \<le> i" and "i < MAX_FREE_LISTS"
    and "on_walk (mem st) (head (free_lists (pool st) ! i)) best"
    and "\<And>j x. c \<le> j \<Longrightarrow> j < MAX_FREE_LISTS \<Longrightarrow>
           on_walk (mem st) (head (free_lists (pool st) ! j)) x \<Longrightarrow> eligible (mem st) needed x \<Longrightarrow>
           size_b (load (mem st) best) \<le> size_b (load (mem st) x)"
  using search_free_lists_props [OF assms(1)] assms(2) by auto

text \<open>
  C5, as the code has it. When \<open>memory_pool_alloc\<close> returns a payload, its block
  was eligible for the rounded size, it was met on the walk of a bucket at or
  above the starting class, and no eligible block on the walk of any bucket
  from the starting class up to 31 is smaller: the outer loop is left early
  only on a perfect fit, and otherwise goes on through all higher classes,
  replacing its candidate whenever it meets a strictly smaller one.
\<close>

theorem alloc_selects_smallest_of_all_classes:
  assumes "memory_pool_alloc fuel st n = Some (p, st')" and "p \<noteq> 0"
  shows "eligible (mem st) (align_size n (alignment (pool st))) (p - sizeof_BlockHeader) \<and>
         (\<exists>i. get_free_list_index (align_size n (alignment (pool st))) \<le> i \<and> i < MAX_FREE_LISTS \<and>
              on_walk (mem st) (head (free_lists (pool st) ! i)) (p - sizeof_BlockHeader)) \<and>
         (\<forall>j x. get_free_list_index (align_size n (alignment (pool st))) \<le> j \<and> j < MAX_FREE_LISTS \<and>
                on_walk (mem st) (head (free_lists (pool st) ! j)) x \<and>
                eligible (mem st) (align_size n (alignment (pool st))) x \<longrightarrow>
                size_b (load (mem st) (p - sizeof_BlockHeader)) \<le> size_b (load (mem st) x))"
proof -
  from assms obtain best i where
    s: "search_free_lists fuel st (align_size n (alignment (pool st)))
          (get_free_list_index (align_size n (alignment (pool st)))) (0, 0) = Some (best, i)"
    and nz: "best \<noteq> 0"
    and t: "take_block st best i (align_size n (alignment (pool st))) = (p, st')"
    by (rule alloc_success)
  from take_block_address [OF t] have b: "p - sizeof_BlockHeader = best" .
  note r = search_result [OF s nz]
  show ?thesis
    unfolding b using r by blast
qed

theorem alloc_selects_smallest_of_all_classes_witness:
  "memory_pool_alloc 100 misfiled 100 = Some (69128, after_misfiled_alloc) \<and>
   (69128 :: addr) \<noteq> 0 \<and>
   get_free_list_index (align_size 100 (alignment (pool misfiled))) \<le> 4 \<and>
   on_walk (mem misfiled) (head (free_lists (pool misfiled) ! 4)) 68832 \<and>
   eligible (mem misfiled) (align_size 100 (alignment (pool misfiled))) 68832 \<and>
   size_b (load (mem misfiled) (69128 - sizeof_BlockHeader)) \<le> size_b (load (mem misfiled) 68832)"
proof -
  have nz: "(69128 :: addr) \<noteq> 0"
    by simp
  have c: "get_free_list_index (align_size 100 (alignment (pool misfiled))) \<le> 4"
    by code_simp
  have b: "(4 :: nat) < MAX_FREE_LISTS"
    by (simp add: MAX_FREE_LISTS_def)
  have hd4: "head (free_lists (pool misfiled) ! 4) = 68584"
    by code_simp
  have nx: "next_b (load (mem misfiled) 68584) = 68832"
    by code_simp
  have w: "on_walk (mem misfiled) (head (free_lists (pool misfiled) ! 4)) 68832"
    unfolding hd4 by (rule walk_next) (simp_all add: nx walk_here)
  have e: "eligible (mem misfiled) (align_size 100 (alignment (pool misfiled))) 68832"
    by code_simp
  from alloc_selects_smallest_of_all_classes [OF alloc_100_misfiled nz] c b w e
  have "size_b (load (mem misfiled) (69128 - sizeof_BlockHeader))
          \<le> size_b (load (mem misfiled) 68832)"
    by blast
  with alloc_100_misfiled nz c w e show ?thesis
    by simp
qed

text \<open>
  C5 as stated fails. In the state \<open>misfiled\<close>, which is reached from a fresh pool
  by calls of \<open>alloc\<close> and \<open>free\<close> only and which \<open>validate_pool\<close> accepts, a request
  for 100 bytes is rounded to 104 and starts at class 3. The walk of bucket 4
  meets two candidates, of 1000 and of 752 bytes, so the search of the
  specification stops there with the block of 752 bytes. The code goes on to
  bucket 5, finds a block of 504 bytes there and selects it.
\<close>

theorem search_goes_on_after_a_candidate:
  "(case demo [Alloc 3000, Free 0, Alloc 200, Alloc 200, Free 1, Free 2, Alloc 3000] of
      None \<Rightarrow> False
    | Some (st, ps) \<Rightarrow>
        validate_pool st \<and>
        align_size 100 (alignment (pool st)) = 104 \<and> get_free_list_index 104 = 3 \<and>
        spec_search 100 st 104 3 = Some (68832, 4) \<and>
        search_free_lists 100 st 104 3 (0, 0) = Some (69080, 5))"
  by code_simp

section \<open>Accounting of used bytes\<close>

lemma free_freed:
  assumes "memory_pool_free fuel st ptr = Some (Freed, st')"
  obtains blk' st2 where
    "pool_signature (pool st) = POOL_SIGNATURE" "ptr \<noteq> 0"
    "validate_block (mem st) (ptr - sizeof_BlockHeader)"
    "\<not> is_free (load (mem st) (ptr - sizeof_BlockHeader))"
    "coalesce_blocks fuel
       \<lparr>pool = (pool st)\<lparr>used_size := used_size (pool st)
                                        - size_b (load (mem st) (ptr - sizeof_BlockHeader)),
                          num_deallocations := num_deallocations (pool st) + 1\<rparr>,
        mem = set_free (mem st) (ptr - sizeof_BlockHeader) True\<rparr>
       (ptr - sizeof_BlockHeader) = Some (blk', st2)"
    "st' = add_to_free_list st2 blk'"
  using assms
  by (auto simp: memory_pool_free_def Let_def split: if_splits option.splits prod.splits)

lemma free_not_freed:
  assumes "memory_pool_free fuel st ptr = Some (r, st')" and "r \<noteq> Freed"
  shows "st' = st"
  using assms
  by (auto simp: memory_pool_free_def Let_def split: if_splits option.splits prod.splits)

lemma used_size_lists [simp]:
  "used_size (set_head p i v) = used_size p"
  "used_size (set_count p i v) = used_size p"
  by (simp_all add: set_head_def set_count_def)

lemma used_size_helpers [simp]:
  "used_size (pool (remove_from_free_list st b i)) = used_size (pool st)"
  "used_size (pool (add_to_free_list st b)) = used_size (pool st)"
  "used_size (pool (snd (split_block st b req))) = used_size (pool st)"
  "pool_signature (pool (snd (split_block st b req))) = pool_signature (pool st)"
  "used_size (pool (merge_next st b)) = used_size (pool st)"
  "used_size (pool (merge_prev st b)) = used_size (pool st)"
  by (simp_all add: remove_from_free_list_def add_to_free_list_def split_block_def
      merge_next_def merge_prev_def Let_def)

lemma coalesce_next_used_size:
  "coalesce_next fuel st blk = Some st' \<Longrightarrow> used_size (pool st') = used_size (pool st)"
  by (induction fuel st blk rule: coalesce_next.induct) (auto split: if_splits)

lemma coalesce_prev_used_size:
  "coalesce_prev fuel st blk = Some (blk', st') \<Longrightarrow> used_size (pool st') = used_size (pool st)"
  by (induction fuel st blk rule: coalesce_prev.induct) (auto split: if_splits)

lemma coalesce_blocks_used_size:
  assumes "coalesce_blocks fuel st blk = Some (blk', st')"
  shows "used_size (pool st') = used_size (pool st)"
proof (cases "blk = 0 \<or> \<not> validate_block (mem st) blk \<or> \<not> is_free (load (mem st) blk)")
  case True
  with assms show ?thesis
    by (auto simp: coalesce_blocks_def)
next
  case False
  with assms obtain st1 where
    n: "coalesce_next fuel st blk = Some st1" and p: "coalesce_prev fuel st1 blk = Some (blk', st')"
    by (auto simp: coalesce_blocks_def split: option.splits)
  from coalesce_next_used_size [OF n] coalesce_prev_used_size [OF p] show ?thesis
    by simp
qed

lemma take_block_used_size:
  assumes "take_block st best i al = (p, st')"
  shows "used_size (pool st') = used_size (pool st) + size_b (load (mem st') best)"
    and "\<not> is_free (load (mem st') best)"
    and "pool_signature (pool st') = pool_signature (pool st)"
  using assms by (auto simp: take_block_def Let_def split_beta load_sets)

lemma free_used_size:
  assumes "memory_pool_free fuel st ptr = Some (r, st')"
  shows "used_size (pool st') =
           (if r = Freed then used_size (pool st) - size_b (load (mem st) (ptr - sizeof_BlockHeader))
            else used_size (pool st))"
proof (cases "r = Freed")
  case False
  with assms free_not_freed [OF assms] show ?thesis by simp
next
  case True
  with assms obtain blk' st2 where
    c: "coalesce_blocks fuel
       \<lparr>pool = (pool st)\<lparr>used_size := used_size (pool st)
                                        - size_b (load (mem st) (ptr - sizeof_BlockHeader)),
                          num_deallocations := num_deallocations (pool st) + 1\<rparr>,
        mem = set_free (mem st) (ptr - sizeof_BlockHeader) True\<rparr>
       (ptr - sizeof_BlockHeader) = Some (blk', st2)"
    and st': "st' = add_to_free_list st2 blk'"
    by (auto elim: free_freed)
  from coalesce_blocks_used_size [OF c] True show ?thesis
    by (simp add: st')
qed

text \<open>
  The part of the round trip that holds in every state: when \<open>memory_pool_alloc\<close>
  returns a payload and \<open>memory_pool_free\<close> then frees it, \<open>used_size\<close> is what it
  was before the allocation.
\<close>

lemma round_trip_restores_used_size:
  assumes a: "memory_pool_alloc fuel st n = Some (p, st1)" and nz: "p \<noteq> 0"
    and f: "memory_pool_free fuel' st1 p = Some (r, st2)"
    and ok: "r = Freed"
  shows "used_size (pool st2) = used_size (pool st)"
proof -
  from a nz obtain best i where
    t: "take_block st best i (align_size n (alignment (pool st))) = (p, st1)"
    by (rule alloc_success)
  from take_block_address [OF t] have b: "p - sizeof_BlockHeader = best" .
  note u = take_block_used_size [OF t]
  from free_used_size [OF f] ok u(1) show ?thesis
    by (simp add: b)
qed

lemma in_use_bytes_Cons:
  "in_use_bytes h (b # bs) =
     (if is_free (load h b) then 0 else unat (size_b (load h b))) + in_use_bytes h bs"
  by (simp add: in_use_bytes_def)

lemma validate_walk_sum:
  assumes "validate_walk h a n s = Some r"
  shows "\<exists>bs. block_chain (Suc (10000 - n)) h a = Some bs \<and>
              r = s + of_nat (in_use_bytes h bs)"
  using assms
proof (induction h a n s rule: validate_walk.induct)
  case (1 h current total_blocks calculated_used)
  show ?case
  proof (cases "current = 0")
    case True
    with "1.prems" show ?thesis
      by (subst (asm) validate_walk.simps) (simp add: in_use_bytes_def)
  next
    case False
    let ?s' = "if \<not> is_free (load h current)
               then calculated_used + size_b (load h current) else calculated_used"
    from "1.prems" False have v: "validate_block h current"
      and le: "\<not> total_blocks + 1 > 10000"
      and rec: "validate_walk h (next_b (load h current)) (total_blocks + 1) ?s' = Some r"
      by (subst (asm) validate_walk.simps, simp add: Let_def split: if_splits)+
    from "1.IH" [OF False _ refl refl le rec] v obtain bs where
      bs: "block_chain (Suc (10000 - (total_blocks + 1))) h (next_b (load h current)) = Some bs"
      and r: "r = ?s' + of_nat (in_use_bytes h bs)"
      by auto
    from le have "Suc (10000 - (total_blocks + 1)) = 10000 - total_blocks"
      by simp
    with bs have "block_chain (10000 - total_blocks) h (next_b (load h current)) = Some bs"
      by (simp only:)
    with False have "block_chain (Suc (10000 - total_blocks)) h current = Some (current # bs)"
      by (simp only: block_chain.simps if_False option.case)
    moreover from r have "r = calculated_used + of_nat (in_use_bytes h (current # bs))"
      by (simp add: in_use_bytes_Cons)
    ultimately show ?thesis
      by blast
  qed
qed

text \<open>
  The validator's half of the accounting: when \<open>validate_pool\<close> accepts a state,
  the chain from \<open>first_block\<close> ends within 10000 blocks and \<open>used_size\<close> equals
  the sum of the sizes of the blocks on it that are in use (modulo \<open>2 ^ 64\<close>).
\<close>

lemma validate_pool_compares_chain_sum:
  assumes "validate_pool st"
  shows "\<exists>bs. block_chain 10001 (mem st) (first_block (pool st)) = Some bs \<and>
              used_size (pool st) = of_nat (in_use_bytes (mem st) bs)"
proof -
  from assms obtain r where
    w: "validate_walk (mem st) (first_block (pool st)) 0 0 = Some r" and u: "r = used_size (pool st)"
    by (auto simp: validate_pool_def Let_def split: if_splits option.splits)
  from validate_walk_sum [OF w] u show ?thesis
    by (simp add: eval_nat_numeral)
qed

section \<open>The shared \<open>next\<close> and \<open>prev\<close> pointers\<close>

text \<open>
  \<open>split_block\<close>, \<open>coalesce_blocks\<close>, \<open>validate_pool\<close> and \<open>dump_pool_layout\<close> treat
  \<open>next\<close> and \<open>prev\<close> as the links of the physical block chain, while
  \<open>add_to_free_list\<close> and \<open>remove_from_free_list\<close> overwrite the same two fields
  with the links of a free list, and \<open>coalesce_blocks\<close> leaves an absorbed
  neighbour in its free list. The runs below show what follows from that.
\<close>

text \<open>
  C10. When \<open>memory_pool_alloc\<close> returns a payload and the number of blocks is
  what it was before the call, that is, \<open>split_block\<close> did not split, then the
  \<open>next\<close> and \<open>prev\<close> pointers of the allocated block are null, as
  \<open>remove_from_free_list\<close> left them, and a walk that starts at the block and
  follows \<open>next\<close> visits this block only.
\<close>

theorem alloc_without_split_nulls_links:
  assumes "memory_pool_alloc fuel st n = Some (p, st')" and "p \<noteq> 0"
    and "num_blocks (pool st') = num_blocks (pool st)"
  shows "next_b (load (mem st') (p - sizeof_BlockHeader)) = 0 \<and>
         prev_b (load (mem st') (p - sizeof_BlockHeader)) = 0 \<and>
         \<not> is_free (load (mem st') (p - sizeof_BlockHeader)) \<and>
         block_chain (Suc (Suc k)) (mem st') (p - sizeof_BlockHeader) = Some [p - sizeof_BlockHeader]"
proof -
  from assms(1,2) obtain best i where
    s: "search_free_lists fuel st (align_size n (alignment (pool st)))
          (get_free_list_index (align_size n (alignment (pool st)))) (0, 0) = Some (best, i)"
    and nz: "best \<noteq> 0"
    and t: "take_block st best i (align_size n (alignment (pool st))) = (p, st')"
    by (rule alloc_success)
  from search_result(3) [OF s nz] have i: "i < MAX_FREE_LISTS" .
  from take_block_address [OF t] have b: "p - sizeof_BlockHeader = best" .
  from take_block_num_blocks [OF t assms(3)]
  have m: "mem st' = set_free (mem (remove_from_free_list st best i)) best False" .
  have "next_b (load (mem st') best) = 0" and "prev_b (load (mem st') best) = 0"
    and "\<not> is_free (load (mem st') best)"
    using remove_from_free_list_links [OF nz i, of st] by (simp_all add: m load_sets)
  with nz show ?thesis
    by (simp add: b)
qed

theorem alloc_without_split_nulls_links_witness:
  "memory_pool_alloc 100 after_free_32 4000 = Some (65584, after_realloc_4000) \<and>
   (65584 :: addr) \<noteq> 0 \<and>
   num_blocks (pool after_realloc_4000) = num_blocks (pool after_free_32) \<and>
   next_b (load (mem after_free_32) (65584 - sizeof_BlockHeader)) = 65616 \<and>
   next_b (load (mem after_realloc_4000) (65584 - sizeof_BlockHeader)) = 0 \<and>
   prev_b (load (mem after_realloc_4000) (65584 - sizeof_BlockHeader)) = 0 \<and>
   block_chain 2 (mem after_realloc_4000) (65584 - sizeof_BlockHeader)
     = Some [65584 - sizeof_BlockHeader]"
proof -
  have nz: "(65584 :: addr) \<noteq> 0"
    by simp
  have nb: "num_blocks (pool after_realloc_4000) = num_blocks (pool after_free_32)"
    by code_simp
  have before: "next_b (load (mem after_free_32) (65584 - sizeof_BlockHeader)) = 65616"
    by code_simp
  from alloc_without_split_nulls_links [OF realloc_4000 nz nb, of 0]
  show ?thesis
    using realloc_4000 nz nb before by (simp add: numeral_2_eq_2)
qed

text \<open>A block that is its own \<open>next\<close> makes the walk of \<open>validate_pool\<close> give up.\<close>

lemma validate_walk_self_loop:
  "validate_block h a \<Longrightarrow> next_b (load h a) = a \<Longrightarrow> validate_walk h a n s = None"
proof (induction h a n s rule: validate_walk.induct)
  case (1 h current total_blocks calculated_used)
  then show ?case
    by (subst validate_walk.simps) (auto simp: Let_def validate_block_def)
qed

lemma validate_after_round_trips: "validate_pool after_round_trips"
  by code_simp

lemma validate_after_third_round_trip: "\<not> validate_pool after_third_round_trip"
proof -
  have v: "validate_block (mem after_third_round_trip) 68584"
    by code_simp
  have n: "next_b (load (mem after_third_round_trip) 68584) = 68584"
    by code_simp
  have b: "validate_block (mem after_third_round_trip) 65536"
    by code_simp
  have m: "next_b (load (mem after_third_round_trip) 65536) = 68584"
    by code_simp
  have f: "first_block (pool after_third_round_trip) = 65536"
    by code_simp
  have "validate_walk (mem after_third_round_trip) 65536 0 0 = None"
    using b m validate_walk_self_loop [OF v n]
    by (subst validate_walk.simps) (simp add: Let_def)
  then show ?thesis
    by (simp add: validate_pool_def Let_def f)
qed

text \<open>
  C1 at a failing input. After two round trips of 3000 bytes \<open>validate_pool\<close>
  accepts the pool and \<open>used_size\<close> is 0. A third round trip, \<open>alloc(1000)\<close> and
  the \<open>free\<close> of its result, brings \<open>used_size\<close> back to 0, but the freed block,
  which was still the head of its free list, now has itself as \<open>next\<close>: the
  walk of \<open>validate_pool\<close> never ends and is given up after 10000 blocks.
\<close>

theorem validate_fails_after_round_trip:
  "(case demo [Alloc 3000, Free 0, Alloc 3000, Free 1] of
      None \<Rightarrow> False
    | Some (st, ps) \<Rightarrow> validate_pool st \<and> used_size (pool st) = 0) \<and>
   (case demo [Alloc 3000, Free 0, Alloc 3000, Free 1, Alloc 1000, Free 2] of
      None \<Rightarrow> False
    | Some (st, ps) \<Rightarrow>
        ps = [65584, 65584, 68632] \<and> num_deallocations (pool st) = 3 \<and>
        used_size (pool st) = 0 \<and> \<not> validate_pool st)"
proof -
  have "used_size (pool after_round_trips) = 0"
    and "used_size (pool after_third_round_trip) = 0"
    and "num_deallocations (pool after_third_round_trip) = 3"
    by code_simp+
  then show ?thesis
    unfolding demo_round_trips demo_third_round_trip
    by (simp add: validate_after_round_trips validate_after_third_round_trip)
qed

text \<open>
  C4 at a failing input. After \<open>alloc(100)\<close> and the \<open>free\<close> of its result, the
  chain from \<open>first_block\<close> consists of the merged block of 4048 bytes and of
  the stale header of the absorbed tail, which \<open>add_to_free_list\<close> linked behind
  it: headers and payloads of the chain add up to 8040 bytes in a region of
  4096.
\<close>

theorem chain_bytes_exceed_region_after_free:
  "(case demo [Alloc 100, Free 0] of
      None \<Rightarrow> False
    | Some (st, ps) \<Rightarrow>
        ps = [65584] \<and>
        block_chain 100 (mem st) (first_block (pool st)) = Some [65536, 65688] \<and>
        chain_bytes (mem st) [65536, 65688] = 8040 \<and>
        total_size (pool st) = 4096)"
  by code_simp

text \<open>
  C3 at a failing input. After three allocations of 100 bytes and the \<open>free\<close> of
  the second, two blocks of 104 bytes are in use and \<open>used_size\<close> is 208, but
  the freed block was put at the head of an empty free list, so its \<open>next\<close> is
  null and the chain ends there: the blocks in use on the chain add up to 104,
  which is what the walk of \<open>validate_pool\<close> computes, and \<open>validate_pool\<close>
  fails.
\<close>

theorem used_size_differs_from_chain_after_free:
  "(case demo [Alloc 100, Alloc 100, Alloc 100, Free 1] of
      None \<Rightarrow> False
    | Some (st, ps) \<Rightarrow>
        ps = [65584, 65736, 65888] \<and>
        used_size (pool st) = 208 \<and>
        block_chain 100 (mem st) (first_block (pool st)) = Some [65536, 65688] \<and>
        in_use_bytes (mem st) [65536, 65688] = 104 \<and>
        validate_walk (mem st) (first_block (pool st)) 0 0 = Some 104 \<and>
        \<not> validate_pool st)"
  by code_simp

text \<open>
  C2 at a failing input. Three blocks of 104 bytes are allocated; the first is
  freed and allocated again (a perfect fit, so no split and a null \<open>next\<close>);
  then the second block is freed, and then the first. The last \<open>free\<close> finds no
  \<open>next\<close> to merge with and links the first block in front of the second in
  their free list: the chain is now the first block followed by the second,
  the second starts where the payload of the first ends, and both are free.
\<close>

theorem adjacent_free_blocks_after_free:
  "(case demo [Alloc 100, Alloc 100, Alloc 100, Free 0, Alloc 100, Free 1, Free 3] of
      None \<Rightarrow> False
    | Some (st, ps) \<Rightarrow>
        ps = [65584, 65736, 65888, 65584] \<and>
        block_chain 100 (mem st) (first_block (pool st)) = Some [65536, 65688] \<and>
        adjacent_free_pair (mem st) [65536, 65688] = Some (65536, 65688))"
  by code_simp

section \<open>Double free\<close>

text \<open>
  The scenario S4 of the specification: on a fresh pool, the second \<open>free\<close> of
  the same address is reported as a double free.
\<close>

lemma double_free_on_fresh_pool:
  "demo_log [Alloc 32, Free 0, Free 0]
     = Some [Returned 65584, Reported Freed, Reported DoubleFree]"
  by code_simp

text \<open>
  C8 at a failing input. The round trip of 2976 bytes leaves the header of the
  absorbed tail, at \<open>68560\<close>, as the head of bucket 6. The allocation of 2968
  bytes splits the merged block 8 bytes earlier, at \<open>68552\<close>, so the new header
  and the stale one share 40 bytes. That block is split again for the request
  of 520 bytes, which returns \<open>68600\<close>. When this address is freed, the block
  of 520 bytes goes to bucket 6, in front of the stale head, and
  \<open>add_to_free_list\<close> writes \<open>list->head->prev\<close>: the \<open>prev\<close> field of the stale
  header is the \<open>magic\<close> field of the block that is being freed. The second
  \<open>free\<close> of the same address therefore fails \<open>validate_block\<close> and is reported as
  an invalid header, not as a double free.
\<close>

theorem second_free_reports_invalid_header:
  "demo_log [Alloc 2976, Free 0, Alloc 2968, Alloc 520, Alloc 464, Free 2, Free 2]
     = Some [Returned 65584, Reported Freed, Returned 65584, Returned 68600, Returned 69168,
             Reported Freed, Reported InvalidHeader]"
  by code_simp

section \<open>Alignment of payloads\<close>

text \<open>
  C6 at a failing input. With an alignment of 32 the first allocation returns
  the address 48 bytes behind the page-aligned start of the region, which is
  16 modulo 32: only sizes are rounded, and the header is not a multiple of
  32 bytes long.
\<close>

theorem payload_unaligned_for_alignment_32:
  "(case demo_aligned 32 [Alloc 32] of
      None \<Rightarrow> False
    | Some (st, ps) \<Rightarrow>
        alignment (pool st) = 32 \<and> ps = [65584] \<and> (65584 :: addr) mod 32 = 16)"
  by code_simp

end
